theory Spec2Isabelle
  imports Main
begin

section \<open>The process environment of shell.c\<close>

text \<open>
  shell.c talks to its surroundings through libc and two system-call wrappers
  (\<^verbatim>\<open>sys_fork\<close>, \<^verbatim>\<open>sys_waitpid\<close>). Each of these calls is modelled by what it gives
  back, taken from the state of the world, and by what it leaves behind in a trace.
\<close>

datatype fd = Stdout | Stderr

text \<open>
  The entry points named in the table \<^verbatim>\<open>commands[]\<close>: \<open>Main_cd\<close> is the address of
  \<^verbatim>\<open>main_cd\<close>, and so on.
\<close>

datatype main_fn =
    Main_cd | Main_cp | Main_dmesg | Main_env | Main_exit | Main_help | Main_id
  | Main_jailbreak | Main_kill | Main_ls | Main_mkdir | Main_mount | Main_pwd
  | Main_rmdir | Main_sleep | Main_stat | Main_uname

datatype event =
    Write fd string
  | Strcmp string string
  | Call main_fn int "string list"
  | Fork
  | Waitpid

text \<open>
  One \<^verbatim>\<open>read(STDIN_FILENO, &c, 1)\<close>: a byte (\<open>len = 1\<close>), end of stream (\<open>len = 0\<close>),
  an interrupted call (\<open>len = -1\<close>, \<open>errno = EINTR\<close>) or another error (\<open>len = -1\<close>).
\<close>

datatype read_result = Byte char | Eof | Eintr | ReadError

text \<open>One \<^verbatim>\<open>malloc\<close> or \<^verbatim>\<open>realloc\<close>; a failure carries the text of \<^verbatim>\<open>strerror(errno)\<close>.\<close>

datatype alloc_result = AllocOk | AllocFail string

text \<open>
  \<^item> \<open>stdin\<close>: the results of the coming reads; an exhausted list is the end of the stream.
  \<^item> \<open>heap\<close>: the results of the coming allocations, \<open>heap w 0\<close> the next one.
  \<^item> \<open>forks\<close>: what the coming calls of \<^verbatim>\<open>sys_fork\<close> return (the pid, and the text of
    \<^verbatim>\<open>strerror(errno)\<close> after the call), \<open>forks w 0\<close> the next one.
  \<^item> \<open>waits\<close>: what the coming calls of \<^verbatim>\<open>sys_waitpid\<close> do to \<^verbatim>\<open>status\<close>: \<open>Some s\<close> stores
    \<open>s\<close>, \<open>None\<close> leaves it as it is (the call failed). With the list exhausted the caller
    stays blocked in the call.
  \<^item> \<open>environ\<close>, \<open>workdir\<close>: the environment variables, and the directory \<^verbatim>\<open>getcwd\<close>
    reports (\<open>None\<close> when the call fails).
  \<^item> \<open>trace\<close>: what the process has done so far, oldest first.
\<close>

record world =
  stdin :: "read_result list"
  heap :: "nat \<Rightarrow> alloc_result"
  forks :: "nat \<Rightarrow> int \<times> string"
  waits :: "int option list"
  environ :: "string \<rightharpoonup> string"
  workdir :: "string option"
  trace :: "event list"

text \<open>
  How a call ends: it returns a value, the process ends through \<^verbatim>\<open>exit\<close>, the call never
  comes back, or the C code leaves defined behaviour (a store outside the buffer, a signed
  overflow, a read past the end of an array).
\<close>

datatype 'a result = Returns 'a | Exits int | Hangs | Undefined

definition NUL :: char where
  "NUL = CHR 0x00"

definition NL :: char where
  "NL = CHR 0x0A"

definition INT_MAX :: int where
  "INT_MAX = 2147483647"

definition SHELL_LINE_BUFSIZE :: int where
  "SHELL_LINE_BUFSIZE = 1024"

definition SHELL_TOK_BUFSIZE :: int where
  "SHELL_TOK_BUFSIZE = 128"

definition SHELL_TOK_DELIM :: string where
  "SHELL_TOK_DELIM = [CHR '' '', CHR 0x09, CHR 0x0D, CHR 0x0A, CHR 0x07]"

text \<open>A \<^verbatim>\<open>char *\<close> read as a string: the bytes before the first NUL.\<close>

definition c_str :: "string \<Rightarrow> string" where
  "c_str bytes = takeWhile (\<lambda>c. c \<noteq> NUL) bytes"

definition alloc :: "world \<Rightarrow> alloc_result \<times> world" where
  "alloc w = (heap w 0, w\<lparr>heap := \<lambda>n. heap w (Suc n)\<rparr>)"

definition log_event :: "event \<Rightarrow> world \<Rightarrow> world" where
  "log_event e w = w\<lparr>trace := trace w @ [e]\<rparr>"

definition fprintf :: "fd \<Rightarrow> string \<Rightarrow> world \<Rightarrow> world" where
  "fprintf f s w = log_event (Write f s) w"

definition printf :: "string \<Rightarrow> world \<Rightarrow> world" where
  "printf s w = fprintf Stdout s w"

definition getcwd :: "world \<Rightarrow> string option" where
  "getcwd w = workdir w"

definition getenv :: "string \<Rightarrow> world \<Rightarrow> string option" where
  "getenv name w = environ w name"

text \<open>\<^verbatim>\<open>setenv(name, value, 0)\<close>: an existing value is kept.\<close>

definition setenv0 :: "string \<Rightarrow> string \<Rightarrow> world \<Rightarrow> world" where
  "setenv0 name val w =
     (case environ w name of
        Some _ \<Rightarrow> w
      | None \<Rightarrow> w\<lparr>environ := (environ w)(name \<mapsto> val)\<rparr>)"

section \<open>shell\_readline\<close>

text \<open>
  The loop of \<^verbatim>\<open>shell_readline\<close>, over the results of the reads still to come.
  \<open>buffer\<close> holds the bytes stored so far, so \<^verbatim>\<open>position\<close> is its length, and \<open>bufsize\<close>
  is the size of the block. A store at \<^verbatim>\<open>buffer[position]\<close> with \<open>position \<ge> bufsize\<close>
  is outside the block, and \<^verbatim>\<open>bufsize += SHELL_LINE_BUFSIZE\<close> beyond \<open>INT_MAX\<close> overflows
  an \<^verbatim>\<open>int\<close>: both are \<open>Undefined\<close>. The line is returned as the bytes of the block up
  to and with the terminating NUL; \<open>None\<close> is the NULL pointer.
\<close>

fun readline_loop ::
  "read_result list \<Rightarrow> int \<Rightarrow> string \<Rightarrow> world \<Rightarrow> string option result \<times> world" where
  "readline_loop [] bufsize buffer w = (Returns None, w\<lparr>stdin := []\<rparr>)"
| "readline_loop (Eintr # rs) bufsize buffer w = readline_loop rs bufsize buffer w"
| "readline_loop (Eof # rs) bufsize buffer w = (Returns None, w\<lparr>stdin := rs\<rparr>)"
| "readline_loop (ReadError # rs) bufsize buffer w = (Returns None, w\<lparr>stdin := rs\<rparr>)"
| "readline_loop (Byte c # rs) bufsize buffer w =
     (if \<not> int (length buffer) < bufsize then (Undefined, w\<lparr>stdin := rs\<rparr>)
      else if c = NL then (Returns (Some (buffer @ [NUL])), w\<lparr>stdin := rs\<rparr>)
      else if int (length buffer) + 1 \<ge> bufsize then
        (if bufsize + SHELL_LINE_BUFSIZE > INT_MAX then (Undefined, w\<lparr>stdin := rs\<rparr>)
         else
           (case alloc w of
              (AllocOk, w') \<Rightarrow>
                readline_loop rs (bufsize + SHELL_LINE_BUFSIZE) (buffer @ [c]) w'
            | (AllocFail msg, w') \<Rightarrow>
                (Returns None,
                 fprintf Stderr (''realloc: '' @ msg @ [NL]) (w'\<lparr>stdin := rs\<rparr>))))
      else readline_loop rs bufsize (buffer @ [c]) w)"

definition shell_readline :: "world \<Rightarrow> string option result \<times> world" where
  "shell_readline w =
     (case alloc w of
        (AllocFail msg, w') \<Rightarrow> (Returns None, fprintf Stderr (''malloc: '' @ msg @ [NL]) w')
      | (AllocOk, w') \<Rightarrow> readline_loop (stdin w') SHELL_LINE_BUFSIZE [] w')"

section \<open>shell\_splitline\<close>

definition is_delim :: "char \<Rightarrow> bool" where
  "is_delim c = (c \<in> set SHELL_TOK_DELIM)"

text \<open>
  \<^verbatim>\<open>strtok\<close> with the delimiters \<^verbatim>\<open>SHELL_TOK_DELIM\<close>, on the part of the string still to be
  scanned: it skips the leading delimiters; if nothing is left the result is NULL; else
  the token runs up to the next delimiter, which is overwritten with NUL, and the next
  call scans from behind it. Tokens are given by value here: the model keeps the bytes of
  each token, not its address inside the line.
\<close>

definition strtok :: "string \<Rightarrow> (string \<times> string) option" where
  "strtok s =
     (let s1 = dropWhile is_delim s in
      if s1 = [] then None
      else Some (takeWhile (\<lambda>c. \<not> is_delim c) s1,
                 drop 1 (dropWhile (\<lambda>c. \<not> is_delim c) s1)))"

text \<open>
  The loop of \<^verbatim>\<open>shell_splitline\<close>. The first argument is what the last call of \<^verbatim>\<open>strtok\<close>
  gave: the token and the rest to scan, or \<open>None\<close> for NULL. \<open>tokens\<close> holds the slots
  stored so far (\<^verbatim>\<open>position\<close> is its length); a slot is \<open>Some\<close> token or \<open>None\<close> for NULL.
\<close>

function splitline_loop ::
  "(string \<times> string) option \<Rightarrow> int \<Rightarrow> string option list \<Rightarrow> world
     \<Rightarrow> string option list option result \<times> world" where
  "splitline_loop None bufsize tokens w =
     (if \<not> int (length tokens) < bufsize then (Undefined, w)
      else (Returns (Some (tokens @ [None])), w))"
| "splitline_loop (Some (token, rest)) bufsize tokens w =
     (if \<not> int (length tokens) < bufsize then (Undefined, w)
      else if int (length tokens) + 1 \<ge> bufsize then
        (if bufsize + SHELL_TOK_BUFSIZE > INT_MAX then (Undefined, w)
         else
           (case alloc w of
              (AllocOk, w') \<Rightarrow>
                splitline_loop (strtok rest) (bufsize + SHELL_TOK_BUFSIZE)
                  (tokens @ [Some token]) w'
            | (AllocFail msg, w') \<Rightarrow>
                (Returns None, printf (''realloc: '' @ msg @ [NL]) w')))
      else splitline_loop (strtok rest) bufsize (tokens @ [Some token]) w)"
  by pat_completeness auto
termination
proof -
  have shorter: "length r < length s" if a: "strtok s = Some (t, r)" for s t r
  proof -
    let ?s1 = "dropWhile is_delim s"
    let ?s2 = "dropWhile (\<lambda>c. \<not> is_delim c) ?s1"
    from a have ne: "?s1 \<noteq> []" and r: "r = drop 1 ?s2"
      by (auto simp: strtok_def Let_def split: if_splits)
    have 1: "length r = length ?s2 - 1"
      using r by simp
    have 2: "length ?s2 \<le> length ?s1"
      by (rule length_dropWhile_le)
    have 3: "length ?s1 \<le> length s"
      by (rule length_dropWhile_le)
    have 4: "0 < length ?s1"
      using ne by simp
    from 1 2 3 4 show ?thesis
      by linarith
  qed
  show ?thesis
    by (relation "measure (\<lambda>(t, b, ts, w). case t of None \<Rightarrow> 0 | Some (_, r) \<Rightarrow> Suc (length r))")
       (auto split: option.splits dest: shorter)
qed

definition shell_splitline :: "string \<Rightarrow> world \<Rightarrow> string option list option result \<times> world" where
  "shell_splitline line w =
     (case alloc w of
        (AllocFail msg, w') \<Rightarrow> (Returns None, printf (''malloc: '' @ msg @ [NL]) w')
      | (AllocOk, w') \<Rightarrow> splitline_loop (strtok (c_str line)) SHELL_TOK_BUFSIZE [] w')"

section \<open>shell\_prompt\<close>

definition shell_prompt :: "world \<Rightarrow> world" where
  "shell_prompt w =
     (let cwd = (case getenv ''PWD'' w of Some v \<Rightarrow> Some v | None \<Rightarrow> getcwd w)
      in fprintf Stdout ((case cwd of Some d \<Rightarrow> d | None \<Rightarrow> ''(null)'') @ ''$ '') w)"

section \<open>What shell.c takes from elsewhere\<close>

text \<open>
  The handlers of \<^verbatim>\<open>commands.h\<close>, the macros of \<^verbatim>\<open>sys/wait.h\<close> and the compiler's
  \<^verbatim>\<open>__DATE__\<close> and \<^verbatim>\<open>__TIME__\<close> are not part of shell.c; the functions below take them as a
  parameter. A handler is called with \<^verbatim>\<open>argc\<close> and \<^verbatim>\<open>argv\<close> and may do anything to the
  world; it returns, ends the process, hangs or crashes.
\<close>

record platform =
  mains :: "main_fn \<Rightarrow> int \<Rightarrow> string list \<Rightarrow> world \<Rightarrow> int result \<times> world"
  WIFEXITED :: "int \<Rightarrow> bool"
  WIFSIGNALED :: "int \<Rightarrow> bool"
  WEXITSTATUS :: "int \<Rightarrow> int"
  build_date :: string
  build_time :: string

section \<open>The command table\<close>

record shell_command =
  name :: string
  main :: main_fn
  fork :: int

definition cmd :: "string \<Rightarrow> main_fn \<Rightarrow> int \<Rightarrow> shell_command" where
  "cmd n m f = \<lparr>name = n, main = m, fork = f\<rparr>"

definition commands :: "shell_command list" where
  "commands =
     [cmd ''cd'' Main_cd 0,
      cmd ''cp'' Main_cp 1,
      cmd ''dmesg'' Main_dmesg 1,
      cmd ''env'' Main_env 0,
      cmd ''exit'' Main_exit 0,
      cmd ''help'' Main_help 1,
      cmd ''id'' Main_id 1,
      cmd ''jailbreak'' Main_jailbreak 0,
      cmd ''kill'' Main_kill 1,
      cmd ''ls'' Main_ls 1,
      cmd ''mkdir'' Main_mkdir 1,
      cmd ''mount'' Main_mount 1,
      cmd ''pwd'' Main_pwd 1,
      cmd ''rmdir'' Main_rmdir 1,
      cmd ''sleep'' Main_sleep 1,
      cmd ''stat'' Main_stat 1,
      cmd ''uname'' Main_uname 1]"

definition main_help :: "int \<Rightarrow> string list \<Rightarrow> world \<Rightarrow> int result \<times> world" where
  "main_help argc argv w =
     (Returns 0,
      fold (\<lambda>c. printf (''  '' @ name c @ [NL])) commands
        (printf (''Available commands are:'' @ [NL]) w))"

text \<open>
  A call through the pointer \<^verbatim>\<open>main\<close>: \<^verbatim>\<open>main_help\<close> is the function of shell.c, every
  other handler is the platform's.
\<close>

definition call_main ::
  "platform \<Rightarrow> main_fn \<Rightarrow> int \<Rightarrow> string list \<Rightarrow> world \<Rightarrow> int result \<times> world" where
  "call_main P f argc argv w =
     (let w' = log_event (Call f argc argv) w
      in if f = Main_help then main_help argc argv w' else mains P f argc argv w')"

section \<open>shell\_fork\<close>

text \<open>
  The \<^verbatim>\<open>do ... while\<close> of the parent, over what the coming calls of \<^verbatim>\<open>sys_waitpid\<close> do;
  \<open>status\<close> is the variable \<^verbatim>\<open>status\<close> before the call.
\<close>

fun wait_loop :: "platform \<Rightarrow> int option list \<Rightarrow> int \<Rightarrow> world \<Rightarrow> int result \<times> world" where
  "wait_loop P [] status w = (Hangs, log_event Waitpid (w\<lparr>waits := []\<rparr>))"
| "wait_loop P (e # es) status w =
     (let status' = (case e of Some s \<Rightarrow> s | None \<Rightarrow> status);
          w' = log_event Waitpid (w\<lparr>waits := es\<rparr>)
      in if \<not> WIFEXITED P status' \<and> \<not> WIFSIGNALED P status'
         then wait_loop P es status' w'
         else (Returns (WEXITSTATUS P status'), w'))"

text \<open>
  \<^verbatim>\<open>shell_fork\<close> as run by the process that gets \<open>pid\<close> back from \<^verbatim>\<open>sys_fork\<close>: the child
  (\<open>pid = 0\<close>) calls the handler and ends with \<^verbatim>\<open>exit(rc)\<close>; the parent reports a failed
  fork or waits.
\<close>

definition shell_fork ::
  "platform \<Rightarrow> main_fn \<Rightarrow> int \<Rightarrow> string list \<Rightarrow> world \<Rightarrow> int result \<times> world" where
  "shell_fork P m argc argv w =
     (let (pid, msg) = forks w 0;
          w1 = log_event Fork (w\<lparr>forks := \<lambda>n. forks w (Suc n)\<rparr>)
      in if pid = 0 then
           (case call_main P m argc argv w1 of
              (Returns rc, w2) \<Rightarrow> (Exits rc, w2)
            | (r, w2) \<Rightarrow> (r, w2))
         else if pid < 0 then
           (Returns (- 1), fprintf Stderr (''fork: '' @ msg @ [NL]) w1)
         else wait_loop P (waits w1) 0 w1)"

section \<open>shell\_execute\<close>

text \<open>
  \<^verbatim>\<open>while(argv[argc]) argc++\<close>: the number of slots before the first NULL; an array
  with no NULL slot is read past its end.
\<close>

fun scan_argc :: "string option list \<Rightarrow> nat option" where
  "scan_argc [] = None"
| "scan_argc (None # _) = Some 0"
| "scan_argc (Some _ # argv) = map_option Suc (scan_argc argv)"

text \<open>
  The \<^verbatim>\<open>for\<close> loop over the table: \<^verbatim>\<open>strcmp(argv[0], commands[i].name)\<close> for each entry
  in turn, up to the first that is equal.
\<close>

fun find_command :: "shell_command list \<Rightarrow> string \<Rightarrow> world \<Rightarrow> shell_command option \<times> world" where
  "find_command [] arg0 w = (None, w)"
| "find_command (c # cs) arg0 w =
     (let w' = log_event (Strcmp arg0 (name c)) w
      in if arg0 \<noteq> name c then find_command cs arg0 w' else (Some c, w'))"

definition shell_execute :: "platform \<Rightarrow> string option list \<Rightarrow> world \<Rightarrow> int result \<times> world" where
  "shell_execute P argv w =
     (case scan_argc argv of
        None \<Rightarrow> (Undefined, w)
      | Some argc \<Rightarrow>
          if int argc > INT_MAX then (Undefined, w)
          else if argc = 0 then (Returns (- 1), w)
          else
            (let args = map the (take argc argv) in
             case find_command commands (hd args) w of
               (Some c, w') \<Rightarrow>
                 if fork c \<noteq> 0 then shell_fork P (main c) (int argc) args w'
                 else call_main P (main c) (int argc) args w'
             | (None, w') \<Rightarrow>
                 (Returns (- 1), printf (hd args @ '': command not found'' @ [NL]) w')))"

section \<open>shell\_loop\<close>

text \<open>
  One pass through the body of \<^verbatim>\<open>while(running)\<close>. The calls of \<^verbatim>\<open>setvbuf\<close>, \<^verbatim>\<open>fflush\<close> and
  \<^verbatim>\<open>free\<close> leave nothing in the trace. The body never assigns \<^verbatim>\<open>running\<close>, and no callee
  can reach this local variable, so a pass that comes back leaves it as it was.
\<close>

definition shell_loop_body :: "platform \<Rightarrow> world \<Rightarrow> unit result \<times> world" where
  "shell_loop_body P w =
     (case shell_readline (shell_prompt w) of
        (Returns line, w2) \<Rightarrow>
          (case (case line of None \<Rightarrow> (Returns None, w2) | Some l \<Rightarrow> shell_splitline l w2) of
             (Returns args, w3) \<Rightarrow>
               (case (case args of None \<Rightarrow> (Returns 0, w3) | Some a \<Rightarrow> shell_execute P a w3) of
                  (Returns exit_code, w4) \<Rightarrow> (Returns (), w4)
                | (Exits rc, w4) \<Rightarrow> (Exits rc, w4)
                | (Hangs, w4) \<Rightarrow> (Hangs, w4)
                | (Undefined, w4) \<Rightarrow> (Undefined, w4))
           | (Exits rc, w3) \<Rightarrow> (Exits rc, w3)
           | (Hangs, w3) \<Rightarrow> (Hangs, w3)
           | (Undefined, w3) \<Rightarrow> (Undefined, w3))
      | (Exits rc, w2) \<Rightarrow> (Exits rc, w2)
      | (Hangs, w2) \<Rightarrow> (Hangs, w2)
      | (Undefined, w2) \<Rightarrow> (Undefined, w2))"

text \<open>
  \<^verbatim>\<open>while(running)\<close> for at most \<open>fuel\<close> passes. \<open>Some r\<close>: the loop is over, because
  \<^verbatim>\<open>running\<close> was 0 (\<open>Returns\<close>) or because a pass did not come back; \<open>None\<close>: the loop
  is still running after \<open>fuel\<close> passes.
\<close>

fun shell_loop_while :: "platform \<Rightarrow> nat \<Rightarrow> int \<Rightarrow> world \<Rightarrow> unit result option \<times> world" where
  "shell_loop_while P 0 running w =
     (if running = 0 then (Some (Returns ()), w) else (None, w))"
| "shell_loop_while P (Suc fuel) running w =
     (if running = 0 then (Some (Returns ()), w)
      else
        (case shell_loop_body P w of
           (Returns _, w') \<Rightarrow> shell_loop_while P fuel running w'
         | (r, w') \<Rightarrow> (Some r, w')))"

definition shell_loop :: "platform \<Rightarrow> nat \<Rightarrow> world \<Rightarrow> unit result option \<times> world" where
  "shell_loop P fuel w =
     (let w1 = printf [NL] w;
          w2 = printf ''Welcome to a tiny PS4 shell, '' w1;
          w3 = printf (''compiled '' @ build_date P @ '' at '' @ build_time P @ [NL]) w2;
          w4 = printf (''Type 'help' for a list of commands'' @ [NL]) w3;
          w5 = printf [NL] w4;
          w6 = setenv0 ''HOME'' ''/'' w5;
          w7 = setenv0 ''PWD'' ''/'' w6
      in shell_loop_while P fuel 1 w7)"

section \<open>A platform and a world to run the functions on\<close>

unbundle bit_operations_syntax

text \<open>
  The macros of \<^verbatim>\<open>sys/wait.h\<close> as FreeBSD defines them (the console's system is built
  on FreeBSD): the low seven bits of the status hold the terminating signal, 0 for a
  normal exit and \<open>0x7F\<close> for a stopped child, and the exit code is \<^verbatim>\<open>status >> 8\<close>.
\<close>

definition std_WIFEXITED :: "int \<Rightarrow> bool" where
  "std_WIFEXITED x = (x AND 0x7F = 0)"

definition std_WIFSIGNALED :: "int \<Rightarrow> bool" where
  "std_WIFSIGNALED x = (x AND 0x7F \<noteq> 0x7F \<and> x AND 0x7F \<noteq> 0 \<and> x \<noteq> 0x13)"

definition std_WEXITSTATUS :: "int \<Rightarrow> int" where
  "std_WEXITSTATUS x = drop_bit 8 x"

text \<open>A platform whose handlers all return 0 and touch nothing.\<close>

definition sample_platform :: platform where
  "sample_platform =
     \<lparr>mains = (\<lambda>f argc argv w. (Returns 0, w)),
      WIFEXITED = std_WIFEXITED, WIFSIGNALED = std_WIFSIGNALED, WEXITSTATUS = std_WEXITSTATUS,
      build_date = ''Jan  1 2021'', build_time = ''00:00:00''\<rparr>"



text \<open>
  A world at the end of its input, where every allocation succeeds and every fork gives
  the parent the pid 1.
\<close>

definition sample_world :: world where
  "sample_world =
     \<lparr>stdin = [], heap = (\<lambda>n. AllocOk), forks = (\<lambda>n. (1, ''Success'')), waits = [],
      environ = Map.empty, workdir = None, trace = []\<rparr>"

section \<open>Notions the statements use\<close>

text \<open>The bytes that a sequence of reads delivers, interrupted calls left out.\<close>

fun bytes_of :: "read_result list \<Rightarrow> string" where
  "bytes_of [] = []"
| "bytes_of (Byte c # rs) = c # bytes_of rs"
| "bytes_of (r # rs) = bytes_of rs"

text \<open>
  The tokenizer in the words of its contract: the line is cut at every delimiter, and
  the empty pieces (between two delimiters of a run, before the first and after the last)
  are dropped.
\<close>

fun fields :: "string \<Rightarrow> string \<Rightarrow> string list" where
  "fields cur [] = [cur]"
| "fields cur (c # cs) = (if is_delim c then cur # fields [] cs else fields (cur @ [c]) cs)"

definition tokens_spec :: "string \<Rightarrow> string list" where
  "tokens_spec s = filter (\<lambda>t. t \<noteq> []) (fields [] s)"

text \<open>What \<^verbatim>\<open>strtok\<close> has given and will still give, seen from inside the loop.\<close>

definition pending :: "(string \<times> string) option \<Rightarrow> string list" where
  "pending tk = (case tk of None \<Rightarrow> [] | Some (t, r) \<Rightarrow> t # tokens_spec r)"



text \<open>What the process has written to standard output, in order.\<close>

fun stdout_writes :: "event list \<Rightarrow> string list" where
  "stdout_writes [] = []"
| "stdout_writes (Write Stdout s # es) = s # stdout_writes es"
| "stdout_writes (e # es) = stdout_writes es"

section \<open>The dispatcher\<close>

lemma find_command_absent:
  "arg0 \<notin> name ` set cs \<Longrightarrow>
     find_command cs arg0 w = (None, w\<lparr>trace := trace w @ map (\<lambda>c. Strcmp arg0 (name c)) cs\<rparr>)"
  by (induction cs arbitrary: w) (simp_all add: log_event_def Let_def)

lemma find_command_found:
  "distinct (map name cs) \<Longrightarrow> c \<in> set cs \<Longrightarrow>
     find_command cs (name c) w =
       (Some c, w\<lparr>trace := trace w @
          map (\<lambda>x. Strcmp (name c) (name x)) (takeWhile (\<lambda>x. name x \<noteq> name c) cs @ [c])\<rparr>)"
proof (induction cs arbitrary: w)
  case Nil
  then show ?case by simp
next
  case (Cons a cs)
  show ?case
  proof (cases "name a = name c")
    case True
    with Cons.prems have "a = c" by force
    then show ?thesis by (simp add: log_event_def Let_def)
  next
    case False
    with Cons.prems have "distinct (map name cs)" and "c \<in> set cs" by auto
    then show ?thesis
      using False Cons.IH [of "log_event (Strcmp (name c) (name a)) w"]
      by (simp add: log_event_def Let_def)
  qed
qed

lemma distinct_names: "distinct (map name commands)"
  by (simp add: commands_def cmd_def)

lemma scan_argc_hd:
  "scan_argc argv = Some n \<Longrightarrow> 0 < n \<Longrightarrow> \<exists>a rest. argv = Some a # rest"
  by (cases argv rule: scan_argc.cases) auto

lemma shell_execute_empty:
  "scan_argc argv = Some 0 \<Longrightarrow> shell_execute P argv w = (Returns (- 1), w)"
  by (simp add: shell_execute_def INT_MAX_def)

lemma shell_execute_unknown:
  assumes "scan_argc argv = Some n" and "0 < n" and "int n \<le> INT_MAX"
    and "the (hd argv) \<notin> name ` set commands"
  shows "shell_execute P argv w =
    (Returns (- 1),
     w\<lparr>trace := trace w @ map (\<lambda>c. Strcmp (the (hd argv)) (name c)) commands
        @ [Write Stdout (the (hd argv) @ '': command not found'' @ [NL])]\<rparr>)"
proof -
  from assms(1,2) obtain a rest where argv: "argv = Some a # rest"
    using scan_argc_hd by blast
  with assms(2) have hd: "hd (map the (take n argv)) = the (hd argv)"
    by (cases n) simp_all
  have "find_command commands (the (hd argv)) w =
      (None, w\<lparr>trace := trace w @ map (\<lambda>c. Strcmp (the (hd argv)) (name c)) commands\<rparr>)"
    using assms(4) by (rule find_command_absent)
  with assms(1,2,3) hd show ?thesis
    by (simp add: shell_execute_def Let_def printf_def fprintf_def log_event_def)
qed

text \<open>
  C8. With no argument before the NULL slot (\<^verbatim>\<open>argc == 0\<close>), \<^verbatim>\<open>shell_execute\<close> returns -1
  and leaves the world as it found it: no \<^verbatim>\<open>strcmp\<close> against the table, no output, no
  fork, no handler.
\<close>

theorem shell_execute_no_args:
  "scan_argc argv = Some 0 \<Longrightarrow> shell_execute P argv w = (Returns (- 1), w)"
  by (rule shell_execute_empty)

theorem shell_execute_no_args_witness:
  "scan_argc [None] = Some 0 \<and>
   shell_execute sample_platform [None] sample_world = (Returns (- 1), sample_world)"
  using shell_execute_no_args [of "[None]" sample_platform sample_world] by simp

text \<open>
  C9. When \<^verbatim>\<open>argv[0]\<close> is the name of no entry of the table, \<^verbatim>\<open>shell_execute\<close> compares it
  with every name, prints \<^verbatim>\<open>"<argv[0]>: command not found"\<close> on standard output and
  returns -1; it neither forks nor waits nor calls a handler.
\<close>

theorem shell_execute_not_found:
  assumes "scan_argc argv = Some n" and "0 < n" and "int n \<le> INT_MAX"
    and "the (hd argv) \<notin> name ` set commands"
  shows "\<exists>w'. shell_execute P argv w = (Returns (- 1), w') \<and>
           trace w' = trace w @ map (\<lambda>c. Strcmp (the (hd argv)) (name c)) commands
              @ [Write Stdout (the (hd argv) @ '': command not found'' @ [NL])] \<and>
           Fork \<notin> set (drop (length (trace w)) (trace w')) \<and>
           (\<forall>f c a. Call f c a \<notin> set (drop (length (trace w)) (trace w'))) \<and>
           forks w' = forks w \<and> waits w' = waits w"
  using shell_execute_unknown [OF assms, of P w] by auto

theorem shell_execute_not_found_witness:
  "scan_argc [Some ''frobnicate'', None] = Some 1 \<and>
   ''frobnicate'' \<notin> name ` set commands \<and>
   (\<exists>w'. shell_execute sample_platform [Some ''frobnicate'', None] sample_world = (Returns (- 1), w') \<and>
      last (trace w') = Write Stdout (''frobnicate: command not found'' @ [NL]) \<and>
      Fork \<notin> set (trace w'))"
proof -
  have 1: "scan_argc [Some ''frobnicate'', None] = Some 1" by simp
  have 2: "int 1 \<le> INT_MAX" by (simp add: INT_MAX_def)
  have 3: "the (hd [Some ''frobnicate'', None]) \<notin> name ` set commands"
    by (simp add: commands_def cmd_def)
  from shell_execute_not_found [OF 1 _ 2 3, of sample_platform sample_world] 1 3
  show ?thesis
    by (auto simp: sample_world_def)
qed

text \<open>
  C10. The status of an empty argument vector, of an unknown command and of a failed fork
  (seen from \<^verbatim>\<open>shell_execute\<close> and from \<^verbatim>\<open>shell_fork\<close>) is the same value -1, which is not
  in the range 0..255.
\<close>

theorem sentinels_coincide:
  "(scan_argc argv = Some 0 \<longrightarrow> fst (shell_execute P argv w) = Returns (- 1)) \<and>
   (scan_argc argv = Some n \<and> 0 < n \<and> int n \<le> INT_MAX \<and> the (hd argv) \<notin> name ` set commands
      \<longrightarrow> fst (shell_execute P argv w) = Returns (- 1)) \<and>
   (scan_argc argv = Some n \<and> 0 < n \<and> int n \<le> INT_MAX \<and> c \<in> set commands \<and>
    the (hd argv) = name c \<and> fork c \<noteq> 0 \<and> fst (forks w 0) < 0
      \<longrightarrow> fst (shell_execute P argv w) = Returns (- 1)) \<and>
   (fst (forks w 0) < 0 \<longrightarrow> fst (shell_fork P m argc args w) = Returns (- 1)) \<and>
   (- 1 :: int) \<notin> {0..255}"
proof (intro conjI impI)
  show "fst (shell_execute P argv w) = Returns (- 1)" if "scan_argc argv = Some 0"
    using that by (simp add: shell_execute_empty)
  show "fst (shell_execute P argv w) = Returns (- 1)"
    if "scan_argc argv = Some n \<and> 0 < n \<and> int n \<le> INT_MAX \<and> the (hd argv) \<notin> name ` set commands"
    using that by (simp add: shell_execute_unknown)
  show fork_fails: "fst (shell_fork P m argc args w) = Returns (- 1)" if "fst (forks w 0) < 0"
    for P m argc args w
    using that by (cases "forks w 0") (simp add: shell_fork_def Let_def)
  show "fst (shell_execute P argv w) = Returns (- 1)"
    if a: "scan_argc argv = Some n \<and> 0 < n \<and> int n \<le> INT_MAX \<and> c \<in> set commands \<and>
      the (hd argv) = name c \<and> fork c \<noteq> 0 \<and> fst (forks w 0) < 0"
  proof -
    from a obtain x rest where argv: "argv = Some x # rest"
      using scan_argc_hd by blast
    with a have hd: "hd (map the (take n argv)) = name c"
      by (cases n) auto
    from a have "find_command commands (name c) w =
       (Some c, w\<lparr>trace := trace w @
          map (\<lambda>x. Strcmp (name c) (name x)) (takeWhile (\<lambda>x. name x \<noteq> name c) commands @ [c])\<rparr>)"
      by (simp add: find_command_found distinct_names)
    with a hd show ?thesis
      by (simp add: shell_execute_def Let_def fork_fails)
  qed
  show "(- 1 :: int) \<notin> {0..255}" by simp
qed

theorem sentinels_coincide_witness:
  "fst (shell_execute sample_platform [None] sample_world) = Returns (- 1) \<and>
   fst (shell_execute sample_platform [Some ''frobnicate'', None] sample_world) = Returns (- 1) \<and>
   fst (shell_execute sample_platform [Some ''ls'', Some ''/'', None]
          (sample_world\<lparr>forks := \<lambda>n. (- 1, ''Resource temporarily unavailable'')\<rparr>)) = Returns (- 1) \<and>
   fst (shell_fork sample_platform Main_ls 2 [''ls'', ''/'']
          (sample_world\<lparr>forks := \<lambda>n. (- 1, ''Resource temporarily unavailable'')\<rparr>)) = Returns (- 1)"
  using sentinels_coincide [where argv = "[None]" and P = sample_platform and w = sample_world]
    sentinels_coincide [where argv = "[Some ''frobnicate'', None]" and n = 1
       and P = sample_platform and w = sample_world]
    sentinels_coincide [where argv = "[Some ''ls'', Some ''/'', None]" and n = 2
       and P = sample_platform
       and w = "sample_world\<lparr>forks := \<lambda>n. (- 1, ''Resource temporarily unavailable'')\<rparr>"
       and c = "cmd ''ls'' Main_ls 1" and m = Main_ls and argc = 2 and args = "[''ls'', ''/'']"]
  by (simp add: INT_MAX_def commands_def cmd_def)

section \<open>The prompt\<close>

text \<open>
  C5. The prompt is the working directory followed by \<^verbatim>\<open>"$ "\<close> on standard output; the
  directory is the value of the environment variable \<^verbatim>\<open>PWD\<close> when it is set, else what
  \<^verbatim>\<open>getcwd\<close> reports, else the text \<^verbatim>\<open>(null)\<close>.
\<close>

theorem shell_prompt_order:
  "(getenv ''PWD'' w = Some v \<longrightarrow>
      shell_prompt w = w\<lparr>trace := trace w @ [Write Stdout (v @ ''$ '')]\<rparr>) \<and>
   (getenv ''PWD'' w = None \<and> getcwd w = Some d \<longrightarrow>
      shell_prompt w = w\<lparr>trace := trace w @ [Write Stdout (d @ ''$ '')]\<rparr>) \<and>
   (getenv ''PWD'' w = None \<and> getcwd w = None \<longrightarrow>
      shell_prompt w = w\<lparr>trace := trace w @ [Write Stdout ''(null)$ '']\<rparr>)"
  by (simp add: shell_prompt_def fprintf_def log_event_def)

theorem shell_prompt_order_witness:
  "trace (shell_prompt (sample_world\<lparr>environ := [''PWD'' \<mapsto> ''/data''], workdir := Some ''/tmp''\<rparr>))
     = [Write Stdout ''/data$ ''] \<and>
   trace (shell_prompt (sample_world\<lparr>workdir := Some ''/tmp''\<rparr>)) = [Write Stdout ''/tmp$ ''] \<and>
   trace (shell_prompt sample_world) = [Write Stdout ''(null)$ '']"
  using shell_prompt_order [of "sample_world\<lparr>environ := [''PWD'' \<mapsto> ''/data''], workdir := Some ''/tmp''\<rparr>" "''/data''"]
    shell_prompt_order [of "sample_world\<lparr>workdir := Some ''/tmp''\<rparr>" _ "''/tmp''"]
    shell_prompt_order [of sample_world]
  by (simp add: sample_world_def getenv_def getcwd_def)

section \<open>The process executor\<close>

lemma wait_loop_terminal:
  "\<forall>t \<in> set pre. \<not> WIFEXITED P t \<and> \<not> WIFSIGNALED P t \<Longrightarrow>
   WIFEXITED P s \<or> WIFSIGNALED P s \<Longrightarrow>
   wait_loop P (map Some pre @ Some s # post) status w =
     (Returns (WEXITSTATUS P s),
      w\<lparr>waits := post, trace := trace w @ replicate (Suc (length pre)) Waitpid\<rparr>)"
proof (induction pre arbitrary: status w)
  case Nil
  then show ?case by (auto simp: Let_def log_event_def)
next
  case (Cons t pre)
  then show ?case
    by (simp add: Let_def log_event_def replicate_app_Cons_same)
qed

lemma wait_loop_blocked:
  "\<forall>t \<in> set pre. \<not> WIFEXITED P t \<and> \<not> WIFSIGNALED P t \<Longrightarrow>
   wait_loop P (map Some pre) status w =
     (Hangs, w\<lparr>waits := [], trace := trace w @ replicate (Suc (length pre)) Waitpid\<rparr>)"
proof (induction pre arbitrary: status w)
  case Nil
  then show ?case by (simp add: log_event_def)
next
  case (Cons t pre)
  then show ?case
    by (simp add: Let_def log_event_def replicate_app_Cons_same)
qed

text \<open>
  C1, as the code has it. In the parent (\<^verbatim>\<open>sys_fork\<close> gave a positive pid), \<^verbatim>\<open>shell_fork\<close>
  calls \<^verbatim>\<open>sys_waitpid\<close> again and again while the status it reports is neither an exit
  nor a termination by a signal, so through every stop notification, and stays blocked
  when no such status comes. With the first status \<open>s\<close> that is one of the two it returns
  \<^verbatim>\<open>WEXITSTATUS(s)\<close>, the same extraction for an exit and for a signal.
\<close>

theorem shell_fork_parent:
  assumes "forks w 0 = (pid, msg)" and "0 < pid"
    and "\<forall>t \<in> set pre. \<not> WIFEXITED P t \<and> \<not> WIFSIGNALED P t"
  shows "(waits w = map Some pre @ Some s # post \<and> (WIFEXITED P s \<or> WIFSIGNALED P s) \<longrightarrow>
           shell_fork P m argc argv w =
             (Returns (WEXITSTATUS P s),
              w\<lparr>forks := \<lambda>n. forks w (Suc n), waits := post,
                 trace := trace w @ Fork # replicate (Suc (length pre)) Waitpid\<rparr>)) \<and>
         (waits w = map Some pre \<longrightarrow> fst (shell_fork P m argc argv w) = Hangs)"
  using assms
  by (auto simp: shell_fork_def Let_def log_event_def wait_loop_terminal wait_loop_blocked)

theorem shell_fork_parent_witness:
  "shell_fork sample_platform Main_ls 2 [''ls'', ''/'']
      (sample_world\<lparr>waits := [Some 0x137F, Some 0x300, Some 0]\<rparr>) =
     (Returns 3, sample_world\<lparr>waits := [Some 0], trace := [Fork, Waitpid, Waitpid]\<rparr>) \<and>
   fst (shell_fork sample_platform Main_ls 2 [''ls'', ''/'']
      (sample_world\<lparr>waits := [Some 0x137F]\<rparr>)) = Hangs"
  using shell_fork_parent [where w = "sample_world\<lparr>waits := [Some 0x137F, Some 0x300, Some 0]\<rparr>"
      and pid = 1 and msg = "''Success''" and pre = "[0x137F]" and P = sample_platform
      and s = "0x300" and post = "[Some 0]" and m = Main_ls and argc = 2 and argv = "[''ls'', ''/'']"]
    shell_fork_parent [where w = "sample_world\<lparr>waits := [Some 0x137F]\<rparr>"
      and pid = 1 and msg = "''Success''" and pre = "[0x137F]" and P = sample_platform
      and m = Main_ls and argc = 2 and argv = "[''ls'', ''/'']"]
  by (simp add: sample_world_def sample_platform_def std_WIFEXITED_def std_WIFSIGNALED_def
      std_WEXITSTATUS_def drop_bit_eq_div)

text \<open>
  C1, as the claim has it, fails: with the macros of \<^verbatim>\<open>sys/wait.h\<close>, a child killed by
  signal 9 gives the status 9, and the parent returns \<^verbatim>\<open>WEXITSTATUS(9)\<close>, which is 0: the
  value it returns for signal 15 and for a child that exited with code 0.
\<close>

theorem shell_fork_signal_counterexample:
  "std_WIFSIGNALED 9 \<and> \<not> std_WIFEXITED 9 \<and> std_WIFSIGNALED 15 \<and> std_WIFEXITED 0 \<and>
   fst (shell_fork sample_platform Main_ls 2 [''ls'', ''/''] (sample_world\<lparr>waits := [Some 9]\<rparr>))
     = Returns (WEXITSTATUS sample_platform 9) \<and>
   fst (shell_fork sample_platform Main_ls 2 [''ls'', ''/''] (sample_world\<lparr>waits := [Some 9]\<rparr>))
     = Returns 0 \<and>
   fst (shell_fork sample_platform Main_ls 2 [''ls'', ''/''] (sample_world\<lparr>waits := [Some 15]\<rparr>))
     = Returns 0 \<and>
   fst (shell_fork sample_platform Main_ls 2 [''ls'', ''/''] (sample_world\<lparr>waits := [Some 0]\<rparr>))
     = Returns 0"
  by (simp add: shell_fork_def Let_def log_event_def sample_world_def sample_platform_def
      std_WIFEXITED_def std_WIFSIGNALED_def std_WEXITSTATUS_def drop_bit_eq_div)

section \<open>The line reader\<close>

lemma alloc_ok: "heap w = (\<lambda>k. AllocOk) \<Longrightarrow> alloc w = (AllocOk, w)"
  by (simp add: alloc_def)

lemma bytes_of_map_Byte: "bytes_of (map Byte xs) = xs"
  by (induction xs) simp_all

lemma readline_loop_line:
  assumes "heap w = (\<lambda>k. AllocOk)"
  shows "int (length buffer) < bufsize \<Longrightarrow>
    bufsize \<le> int (length buffer) + SHELL_LINE_BUFSIZE \<Longrightarrow>
    \<forall>r \<in> set rs. r = Eintr \<or> (\<exists>c. r = Byte c \<and> c \<noteq> NL) \<Longrightarrow>
    int (length buffer + length (bytes_of rs)) + SHELL_LINE_BUFSIZE \<le> INT_MAX \<Longrightarrow>
    readline_loop (rs @ Byte NL # rest) bufsize buffer w =
      (Returns (Some (buffer @ bytes_of rs @ [NUL])), w\<lparr>stdin := rest\<rparr>)"
proof (induction rs arbitrary: bufsize buffer)
  case Nil
  then show ?case by simp
next
  case (Cons r rs)
  show ?case
  proof (cases r)
    case (Byte c)
    with Cons.prems(3) have c: "c \<noteq> NL" by simp
    from Cons.prems(3) have rs: "\<forall>r \<in> set rs. r = Eintr \<or> (\<exists>c. r = Byte c \<and> c \<noteq> NL)" by simp
    from Cons.prems(4) Byte
    have bound: "int (length (buffer @ [c]) + length (bytes_of rs)) + SHELL_LINE_BUFSIZE \<le> INT_MAX"
      by simp
    show ?thesis
    proof (cases "int (length buffer) + 1 \<ge> bufsize")
      case True
      with Cons.prems(1) have eq: "bufsize = int (length buffer) + 1" by simp
      with bound have no_ovf: "\<not> bufsize + SHELL_LINE_BUFSIZE > INT_MAX" by simp
      have "readline_loop (rs @ Byte NL # rest) (bufsize + SHELL_LINE_BUFSIZE) (buffer @ [c]) w =
          (Returns (Some ((buffer @ [c]) @ bytes_of rs @ [NUL])), w\<lparr>stdin := rest\<rparr>)"
        using eq rs bound by (intro Cons.IH) (simp_all add: SHELL_LINE_BUFSIZE_def)
      with Byte c True Cons.prems(1) no_ovf show ?thesis
        by (simp add: alloc_ok [OF assms])
    next
      case False
      have "readline_loop (rs @ Byte NL # rest) bufsize (buffer @ [c]) w =
          (Returns (Some ((buffer @ [c]) @ bytes_of rs @ [NUL])), w\<lparr>stdin := rest\<rparr>)"
        using False Cons.prems(2) rs bound by (intro Cons.IH) simp_all
      with Byte c False Cons.prems(1) show ?thesis
        by simp
    qed
  next
    case Eintr
    with Cons.prems have "readline_loop (rs @ Byte NL # rest) bufsize buffer w =
          (Returns (Some (buffer @ bytes_of rs @ [NUL])), w\<lparr>stdin := rest\<rparr>)"
      by (intro Cons.IH) simp_all
    with Eintr show ?thesis by simp
  next
    case Eof
    with Cons.prems(3) show ?thesis by simp
  next
    case ReadError
    with Cons.prems(3) show ?thesis by simp
  qed
qed

lemma c_str_terminated: "NUL \<notin> set line \<Longrightarrow> c_str (line @ [NUL]) = line"
  by (induction line) (auto simp: c_str_def)

lemma shell_readline_ok:
  assumes "stdin w = rs @ Byte NL # rest"
    and "\<forall>r \<in> set rs. r = Eintr \<or> (\<exists>c. r = Byte c \<and> c \<noteq> NL)"
    and "int (length (bytes_of rs)) + SHELL_LINE_BUFSIZE \<le> INT_MAX"
    and "heap w = (\<lambda>k. AllocOk)"
  shows "shell_readline w = (Returns (Some (bytes_of rs @ [NUL])), w\<lparr>stdin := rest\<rparr>)"
  using readline_loop_line [OF assms(4), of "[]" SHELL_LINE_BUFSIZE rs rest] assms
  by (simp add: shell_readline_def alloc_ok SHELL_LINE_BUFSIZE_def)

text \<open>
  C6. When every allocation succeeds and the reads deliver the bytes of a line (none of
  them a newline, however many, with interrupted reads anywhere between them) and then
  a newline, \<^verbatim>\<open>shell_readline\<close> returns a block that holds exactly these bytes followed by
  NUL, and has consumed the input up to and with the newline. Read as a string the block
  is the line, unless the line itself holds a NUL byte. The length is bounded by what
  the \<^verbatim>\<open>int\<close> \<^verbatim>\<open>bufsize\<close> can count.
\<close>

theorem shell_readline_line:
  assumes "stdin w = rs @ Byte NL # rest"
    and "\<forall>r \<in> set rs. r = Eintr \<or> (\<exists>c. r = Byte c \<and> c \<noteq> NL)"
    and "int (length (bytes_of rs)) + SHELL_LINE_BUFSIZE \<le> INT_MAX"
    and "heap w = (\<lambda>k. AllocOk)"
  shows "shell_readline w = (Returns (Some (bytes_of rs @ [NUL])), w\<lparr>stdin := rest\<rparr>) \<and>
         (NUL \<notin> set (bytes_of rs) \<longrightarrow> c_str (bytes_of rs @ [NUL]) = bytes_of rs)"
  using shell_readline_ok [OF assms] by (simp add: c_str_terminated)

theorem shell_readline_line_witness:
  "shell_readline (sample_world\<lparr>stdin := Eintr # map Byte (replicate 3000 (CHR ''a'')) @ Byte NL # [Byte (CHR ''b'')]\<rparr>)
     = (Returns (Some (replicate 3000 (CHR ''a'') @ [NUL])), sample_world\<lparr>stdin := [Byte (CHR ''b'')]\<rparr>) \<and>
   c_str (replicate 3000 (CHR ''a'') @ [NUL]) = replicate 3000 (CHR ''a'')"
proof -
  let ?line = "replicate 3000 (CHR ''a'')"
  let ?rs = "Eintr # map Byte ?line"
  let ?w = "sample_world\<lparr>stdin := ?rs @ Byte NL # [Byte (CHR ''b'')]\<rparr>"
  have b: "bytes_of ?rs = ?line"
    by (simp add: bytes_of_map_Byte del: map_replicate)
  have 1: "stdin ?w = ?rs @ Byte NL # [Byte (CHR ''b'')]"
    by simp
  have 2: "\<forall>r \<in> set ?rs. r = Eintr \<or> (\<exists>c. r = Byte c \<and> c \<noteq> NL)"
    by (auto simp: NL_def)
  have 3: "int (length (bytes_of ?rs)) + SHELL_LINE_BUFSIZE \<le> INT_MAX"
    unfolding b by (simp add: SHELL_LINE_BUFSIZE_def INT_MAX_def)
  have 4: "heap ?w = (\<lambda>k. AllocOk)"
    by (simp add: sample_world_def)
  have 5: "NUL \<notin> set (bytes_of ?rs)"
    unfolding b by (simp add: NUL_def)
  from shell_readline_line [OF 1 2 3 4] 5 show ?thesis
    unfolding b by simp
qed

section \<open>The tokenizer\<close>

lemma fields_decomp:
  "fields cur s = (cur @ takeWhile (\<lambda>c. \<not> is_delim c) s) #
     (case dropWhile (\<lambda>c. \<not> is_delim c) s of [] \<Rightarrow> [] | d # r \<Rightarrow> fields [] r)"
  by (induction s arbitrary: cur) simp_all

lemma tokens_spec_Nil: "tokens_spec [] = []"
  by (simp add: tokens_spec_def)

lemma tokens_spec_dropWhile: "tokens_spec (dropWhile is_delim s) = tokens_spec s"
  by (induction s) (simp_all add: tokens_spec_def)

lemma tokens_spec_nondelim:
  assumes "\<not> is_delim c"
  shows "tokens_spec (c # cs) = takeWhile (\<lambda>c. \<not> is_delim c) (c # cs) #
      tokens_spec (drop 1 (dropWhile (\<lambda>c. \<not> is_delim c) (c # cs)))"
proof -
  let ?nd = "\<lambda>c. \<not> is_delim c"
  have f: "fields [] (c # cs) = takeWhile ?nd (c # cs) #
      (case dropWhile ?nd (c # cs) of [] \<Rightarrow> [] | d # r \<Rightarrow> fields [] r)"
    by (subst fields_decomp) simp
  have ne: "takeWhile ?nd (c # cs) \<noteq> []"
    using assms by simp
  have r: "filter (\<lambda>t. t \<noteq> []) (case dropWhile ?nd (c # cs) of [] \<Rightarrow> [] | d # r \<Rightarrow> fields [] r)
      = tokens_spec (drop 1 (dropWhile ?nd (c # cs)))"
    by (cases "dropWhile ?nd (c # cs)") (simp_all only: tokens_spec_def list.case drop_Suc_Cons drop_0 One_nat_def drop.simps fields.simps filter.simps, simp_all)
  show ?thesis
    unfolding tokens_spec_def [of "c # cs"] f using ne r by simp
qed

lemma tokens_spec_strtok:
  "tokens_spec s = (case strtok s of None \<Rightarrow> [] | Some (t, r) \<Rightarrow> t # tokens_spec r)"
proof (cases "dropWhile is_delim s")
  case Nil
  have "tokens_spec (dropWhile is_delim s) = []"
    unfolding Nil by (rule tokens_spec_Nil)
  then have "tokens_spec s = []"
    by (simp only: tokens_spec_dropWhile)
  moreover have "strtok s = None"
    unfolding strtok_def Let_def Nil by simp
  ultimately show ?thesis
    by simp
next
  case (Cons c cs)
  then have c: "\<not> is_delim c"
    using hd_dropWhile [of is_delim s] by simp
  have "strtok s = Some (takeWhile (\<lambda>c. \<not> is_delim c) (c # cs),
      drop 1 (dropWhile (\<lambda>c. \<not> is_delim c) (c # cs)))"
    unfolding strtok_def Let_def Cons by simp
  moreover have "tokens_spec s = tokens_spec (c # cs)"
    using tokens_spec_dropWhile [of s] unfolding Cons by simp
  ultimately show ?thesis
    by (simp only: tokens_spec_nondelim [OF c] option.case prod.case)
qed

lemma pending_strtok: "pending (strtok s) = tokens_spec s"
  by (simp add: pending_def tokens_spec_strtok [of s] split: option.splits)

lemma splitline_loop_tokens:
  assumes "heap w = (\<lambda>k. AllocOk)"
  shows "pending tk = ts \<Longrightarrow> int (length tokens) < bufsize \<Longrightarrow>
    bufsize \<le> int (length tokens) + SHELL_TOK_BUFSIZE \<Longrightarrow>
    int (length tokens + length ts) + SHELL_TOK_BUFSIZE \<le> INT_MAX \<Longrightarrow>
    splitline_loop tk bufsize tokens w = (Returns (Some (tokens @ map Some ts @ [None])), w)"
proof (induction ts arbitrary: tk bufsize tokens)
  case Nil
  then have "tk = None"
    by (cases tk) (auto simp: pending_def)
  with Nil show ?case by simp
next
  case (Cons t ts)
  then obtain r where tk: "tk = Some (t, r)" and r: "tokens_spec r = ts"
    by (cases tk) (auto simp: pending_def)
  have p: "pending (strtok r) = ts"
    using r by (simp add: pending_strtok)
  from Cons.prems(4)
  have bound: "int (length (tokens @ [Some t]) + length ts) + SHELL_TOK_BUFSIZE \<le> INT_MAX"
    by simp
  show ?case
  proof (cases "int (length tokens) + 1 \<ge> bufsize")
    case True
    with Cons.prems(2) have eq: "bufsize = int (length tokens) + 1" by simp
    with bound have no_ovf: "\<not> bufsize + SHELL_TOK_BUFSIZE > INT_MAX" by simp
    have "splitline_loop (strtok r) (bufsize + SHELL_TOK_BUFSIZE) (tokens @ [Some t]) w =
        (Returns (Some ((tokens @ [Some t]) @ map Some ts @ [None])), w)"
      using p eq bound by (intro Cons.IH) (simp_all add: SHELL_TOK_BUFSIZE_def)
    with tk True Cons.prems(2) no_ovf show ?thesis
      by (simp add: alloc_ok [OF assms])
  next
    case False
    have "splitline_loop (strtok r) bufsize (tokens @ [Some t]) w =
        (Returns (Some ((tokens @ [Some t]) @ map Some ts @ [None])), w)"
      using p False Cons.prems(3) bound by (intro Cons.IH) simp_all
    with tk False Cons.prems(2) show ?thesis
      by simp
  qed
qed

lemma shell_splitline_ok:
  assumes "heap w = (\<lambda>k. AllocOk)"
    and "int (length (tokens_spec (c_str line))) + SHELL_TOK_BUFSIZE \<le> INT_MAX"
  shows "shell_splitline line w =
           (Returns (Some (map Some (tokens_spec (c_str line)) @ [None])), w)"
  using splitline_loop_tokens [OF assms(1), of "strtok (c_str line)" "tokens_spec (c_str line)"
      "[]" SHELL_TOK_BUFSIZE] assms
  by (simp add: shell_splitline_def alloc_ok pending_strtok SHELL_TOK_BUFSIZE_def)

lemma fields_chars:
  "concat (fields cur s) = cur @ filter (\<lambda>c. \<not> is_delim c) s"
  by (induction s arbitrary: cur) simp_all

lemma fields_no_delim:
  "t \<in> set (fields cur s) \<Longrightarrow> \<forall>c \<in> set cur. \<not> is_delim c \<Longrightarrow> c \<in> set t \<Longrightarrow> \<not> is_delim c"
proof (induction s arbitrary: cur)
  case Nil
  then show ?case by simp
next
  case (Cons a s)
  show ?case
  proof (cases "is_delim a")
    case True
    with Cons.prems(1) have "t = cur \<or> t \<in> set (fields [] s)" by simp
    then show ?thesis
    proof
      assume "t = cur"
      with Cons.prems show ?thesis by blast
    next
      assume a: "t \<in> set (fields [] s)"
      show ?thesis by (rule Cons.IH [OF a _ Cons.prems(3)]) simp
    qed
  next
    case False
    with Cons.prems(1) have a: "t \<in> set (fields (cur @ [a]) s)" by simp
    show ?thesis
      using False Cons.prems(2) by (intro Cons.IH [OF a _ Cons.prems(3)]) auto
  qed
qed

lemma concat_filter_nonempty: "concat (filter (\<lambda>t. t \<noteq> []) xs) = concat xs"
  by (induction xs) simp_all

lemma scan_argc_terminated: "scan_argc (map Some ts @ None # rest) = Some (length ts)"
  by (induction ts) simp_all

lemma tokens_example: "tokens_spec (''ls   -a'' @ [CHR 0x09] @ ''/'') = [''ls'', ''-a'', ''/'']"
  by (simp add: tokens_spec_def is_delim_def SHELL_TOK_DELIM_def)

text \<open>
  C7. When every allocation succeeds, \<^verbatim>\<open>shell_splitline\<close> returns the array of the tokens of
  the line followed by a NULL slot, where the tokens are the pieces between delimiters
  with the empty ones dropped: every token is non-empty and free of delimiters, the
  tokens together are the line without its delimiters, the scan of \<^verbatim>\<open>shell_execute\<close> counts
  them, and the delimiters are space, tab, carriage return, newline and bell. Tokens are
  compared by value: that they lie inside the line's own block is not part of the model.
  The number of tokens is bounded by what the \<^verbatim>\<open>int\<close> \<^verbatim>\<open>bufsize\<close> can count.
\<close>

theorem shell_splitline_tokens:
  assumes "heap w = (\<lambda>k. AllocOk)"
    and "int (length (tokens_spec (c_str line))) + SHELL_TOK_BUFSIZE \<le> INT_MAX"
  shows "shell_splitline line w =
           (Returns (Some (map Some (tokens_spec (c_str line)) @ [None])), w) \<and>
         (\<forall>t \<in> set (tokens_spec (c_str line)). t \<noteq> [] \<and> (\<forall>c \<in> set t. \<not> is_delim c)) \<and>
         concat (tokens_spec (c_str line)) = filter (\<lambda>c. \<not> is_delim c) (c_str line) \<and>
         scan_argc (map Some (tokens_spec (c_str line)) @ [None])
           = Some (length (tokens_spec (c_str line))) \<and>
         (\<forall>c. is_delim c \<longleftrightarrow> c \<in> {CHR '' '', CHR 0x09, CHR 0x0D, CHR 0x0A, CHR 0x07})"
proof (intro conjI)
  show "shell_splitline line w =
           (Returns (Some (map Some (tokens_spec (c_str line)) @ [None])), w)"
    using assms by (rule shell_splitline_ok)
  show "\<forall>t \<in> set (tokens_spec (c_str line)). t \<noteq> [] \<and> (\<forall>c \<in> set t. \<not> is_delim c)"
  proof (intro ballI conjI)
    fix t assume t: "t \<in> set (tokens_spec (c_str line))"
    then show "t \<noteq> []" by (simp add: tokens_spec_def)
    fix c assume c: "c \<in> set t"
    from t have "t \<in> set (fields [] (c_str line))" by (simp add: tokens_spec_def)
    then show "\<not> is_delim c" using _ c by (rule fields_no_delim) simp
  qed
  show "concat (tokens_spec (c_str line)) = filter (\<lambda>c. \<not> is_delim c) (c_str line)"
    by (simp add: tokens_spec_def concat_filter_nonempty fields_chars)
  show "scan_argc (map Some (tokens_spec (c_str line)) @ [None])
           = Some (length (tokens_spec (c_str line)))"
    by (rule scan_argc_terminated)
  show "\<forall>c. is_delim c \<longleftrightarrow> c \<in> {CHR '' '', CHR 0x09, CHR 0x0D, CHR 0x0A, CHR 0x07}"
    by (simp add: is_delim_def SHELL_TOK_DELIM_def)
qed

theorem shell_splitline_tokens_witness:
  "shell_splitline (''ls   -a'' @ [CHR 0x09] @ ''/'') sample_world =
     (Returns (Some [Some ''ls'', Some ''-a'', Some ''/'', None]), sample_world)"
proof -
  let ?line = "''ls   -a'' @ [CHR 0x09] @ ''/''"
  have c: "c_str ?line = ?line"
    by (simp add: c_str_def NUL_def)
  have t: "tokens_spec (c_str ?line) = [''ls'', ''-a'', ''/'']"
    unfolding c by (rule tokens_example)
  have 1: "heap sample_world = (\<lambda>k. AllocOk)"
    by (simp add: sample_world_def)
  have 2: "int (length (tokens_spec (c_str ?line))) + SHELL_TOK_BUFSIZE \<le> INT_MAX"
    unfolding t by (simp add: SHELL_TOK_BUFSIZE_def INT_MAX_def)
  from shell_splitline_tokens [OF 1 2] show ?thesis
    unfolding t by simp
qed

section \<open>Where the fault reports go\<close>

lemma tokens_spec_rep: "tokens_spec (concat (replicate n ''a '')) = replicate n ''a''"
proof (induction n)
  case 0
  show ?case by (simp add: tokens_spec_Nil)
next
  case (Suc n)
  have "tokens_spec (CHR ''a'' # CHR '' '' # concat (replicate n ''a ''))
      = ''a'' # tokens_spec (concat (replicate n ''a ''))"
    by (subst tokens_spec_nondelim) (simp_all add: is_delim_def SHELL_TOK_DELIM_def)
  with Suc show ?case by simp
qed

lemma splitline_loop_growth_fails:
  assumes "heap w 0 = AllocFail msg"
  shows "pending tk = replicate n t \<Longrightarrow> int (length tokens) + int n = SHELL_TOK_BUFSIZE \<Longrightarrow> 0 < n \<Longrightarrow>
    splitline_loop tk SHELL_TOK_BUFSIZE tokens w =
      (Returns None, w\<lparr>heap := \<lambda>k. heap w (Suc k),
         trace := trace w @ [Write Stdout (''realloc: '' @ msg @ [NL])]\<rparr>)"
proof (induction n arbitrary: tk tokens)
  case 0
  then show ?case by simp
next
  case (Suc n)
  from Suc.prems(1) obtain r where tk: "tk = Some (t, r)" and r: "tokens_spec r = replicate n t"
    by (cases tk) (auto simp: pending_def)
  have p: "pending (strtok r) = replicate n t"
    using r by (simp add: pending_strtok)
  show ?case
  proof (cases "n = 0")
    case True
    with Suc.prems(2) tk assms show ?thesis
      by (simp add: SHELL_TOK_BUFSIZE_def INT_MAX_def alloc_def printf_def fprintf_def log_event_def)
  next
    case False
    from Suc.prems(2) have l: "int (length (tokens @ [Some t])) + int n = SHELL_TOK_BUFSIZE"
      by simp
    from False have "0 < n" by simp
    with Suc.IH [OF p l]
    have "splitline_loop (strtok r) SHELL_TOK_BUFSIZE (tokens @ [Some t]) w =
      (Returns None, w\<lparr>heap := \<lambda>k. heap w (Suc k),
         trace := trace w @ [Write Stdout (''realloc: '' @ msg @ [NL])]\<rparr>)"
      by simp
    with tk False Suc.prems(2) show ?thesis
      by simp
  qed
qed

lemma c_str_rep: "c_str (concat (replicate n ''a '')) = concat (replicate n ''a '')"
  by (induction n) (simp_all add: c_str_def NUL_def)

lemma splitline_growth_report:
  "trace (snd (shell_splitline (concat (replicate 128 ''a ''))
      (sample_world\<lparr>heap := \<lambda>n. if n = 0 then AllocOk else AllocFail ''Cannot allocate memory''\<rparr>)))
     = [Write Stdout (''realloc: Cannot allocate memory'' @ [NL])]"
proof -
  let ?w = "sample_world\<lparr>heap := \<lambda>n. if n = 0 then AllocOk else AllocFail ''Cannot allocate memory''\<rparr>"
  let ?w' = "sample_world\<lparr>heap := \<lambda>n. AllocFail ''Cannot allocate memory''\<rparr>"
  let ?line = "concat (replicate 128 ''a '')"
  have a: "alloc ?w = (AllocOk, ?w')"
    by (simp add: alloc_def)
  have h: "heap ?w' 0 = AllocFail ''Cannot allocate memory''"
    by simp
  have p: "pending (strtok (c_str ?line)) = replicate 128 ''a''"
    by (simp only: pending_strtok c_str_rep tokens_spec_rep)
  have l: "int (length ([] :: string option list)) + int 128 = SHELL_TOK_BUFSIZE"
    by (simp add: SHELL_TOK_BUFSIZE_def)
  have "shell_splitline ?line ?w = splitline_loop (strtok (c_str ?line)) SHELL_TOK_BUFSIZE [] ?w'"
    unfolding shell_splitline_def a by (simp only: prod.case alloc_result.case)
  also have "\<dots> = (Returns None, ?w'\<lparr>heap := \<lambda>k. heap ?w' (Suc k),
         trace := trace ?w' @ [Write Stdout (''realloc: '' @ ''Cannot allocate memory'' @ [NL])]\<rparr>)"
    using h p l by (rule splitline_loop_growth_fails) simp
  finally show ?thesis
    by (simp add: sample_world_def)
qed

text \<open>
  C4 fails on the code. When \<^verbatim>\<open>malloc\<close> fails, or \<^verbatim>\<open>realloc\<close> at the 128th token,
  \<^verbatim>\<open>shell_splitline\<close> reports it with \<^verbatim>\<open>printf\<close>, on standard output; \<^verbatim>\<open>shell_readline\<close>
  reports the same failure, and \<^verbatim>\<open>shell_fork\<close> a failed fork, with \<^verbatim>\<open>fprintf(stderr, ...)\<close>.
\<close>

theorem splitline_fault_on_stdout:
  "trace (snd (shell_splitline ''ls''
      (sample_world\<lparr>heap := \<lambda>n. AllocFail ''Cannot allocate memory''\<rparr>)))
     = [Write Stdout (''malloc: Cannot allocate memory'' @ [NL])] \<and>
   trace (snd (shell_splitline (concat (replicate 128 ''a ''))
      (sample_world\<lparr>heap := \<lambda>n. if n = 0 then AllocOk else AllocFail ''Cannot allocate memory''\<rparr>)))
     = [Write Stdout (''realloc: Cannot allocate memory'' @ [NL])] \<and>
   trace (snd (shell_readline
      (sample_world\<lparr>heap := \<lambda>n. AllocFail ''Cannot allocate memory''\<rparr>)))
     = [Write Stderr (''malloc: Cannot allocate memory'' @ [NL])] \<and>
   trace (snd (shell_fork sample_platform Main_ls 1 [''ls'']
      (sample_world\<lparr>forks := \<lambda>n. (- 1, ''Resource temporarily unavailable'')\<rparr>)))
     = [Fork, Write Stderr (''fork: Resource temporarily unavailable'' @ [NL])]"
proof (intro conjI)
  show "trace (snd (shell_splitline ''ls''
      (sample_world\<lparr>heap := \<lambda>n. AllocFail ''Cannot allocate memory''\<rparr>)))
     = [Write Stdout (''malloc: Cannot allocate memory'' @ [NL])]"
    by (simp add: shell_splitline_def alloc_def printf_def fprintf_def log_event_def
        sample_world_def)
  show "trace (snd (shell_splitline (concat (replicate 128 ''a ''))
      (sample_world\<lparr>heap := \<lambda>n. if n = 0 then AllocOk else AllocFail ''Cannot allocate memory''\<rparr>)))
     = [Write Stdout (''realloc: Cannot allocate memory'' @ [NL])]"
    by (rule splitline_growth_report)
  show "trace (snd (shell_readline
      (sample_world\<lparr>heap := \<lambda>n. AllocFail ''Cannot allocate memory''\<rparr>)))
     = [Write Stderr (''malloc: Cannot allocate memory'' @ [NL])]"
    by (simp add: shell_readline_def alloc_def fprintf_def log_event_def sample_world_def)
  show "trace (snd (shell_fork sample_platform Main_ls 1 [''ls'']
      (sample_world\<lparr>forks := \<lambda>n. (- 1, ''Resource temporarily unavailable'')\<rparr>)))
     = [Fork, Write Stderr (''fork: Resource temporarily unavailable'' @ [NL])]"
    by (simp add: shell_fork_def fprintf_def log_event_def sample_world_def Let_def)
qed

section \<open>The loop\<close>

lemma stdout_writes_append: "stdout_writes (xs @ ys) = stdout_writes xs @ stdout_writes ys"
  by (induction xs rule: stdout_writes.induct) simp_all

lemma shell_prompt_fields:
  "stdin (shell_prompt w) = stdin w" "heap (shell_prompt w) = heap w"
  "environ (shell_prompt w) = environ w" "workdir (shell_prompt w) = workdir w"
  by (simp_all add: shell_prompt_def fprintf_def log_event_def)

lemma shell_prompt_same:
  assumes "environ w' = environ w" and "workdir w' = workdir w"
    and "shell_prompt w = fprintf Stdout p w"
  shows "shell_prompt w' = fprintf Stdout p w'"
proof -
  let ?t = "\<lambda>w. (case (case getenv ''PWD'' w of Some v \<Rightarrow> Some v | None \<Rightarrow> getcwd w) of
                    Some d \<Rightarrow> d | None \<Rightarrow> ''(null)'') @ ''$ ''"
  have "trace (shell_prompt w) = trace (fprintf Stdout p w)"
    using assms(3) by simp
  then have "?t w = p"
    by (simp add: shell_prompt_def fprintf_def log_event_def)
  moreover have "?t w' = ?t w"
    using assms(1,2) by (simp add: getenv_def getcwd_def split: option.splits)
  ultimately show ?thesis
    by (simp add: shell_prompt_def)
qed

lemma body_at_eof:
  assumes "stdin w = []"
  shows "\<exists>w'. shell_loop_body P w = (Returns (), w') \<and> stdin w' = [] \<and>
           environ w' = environ w \<and> workdir w' = workdir w \<and>
           stdout_writes (trace w') = stdout_writes (trace (shell_prompt w))"
proof (cases "heap w 0")
  case AllocOk
  with assms show ?thesis
    by (simp add: shell_loop_body_def shell_readline_def alloc_def shell_prompt_fields)
next
  case (AllocFail msg)
  with assms show ?thesis
    by (simp add: shell_loop_body_def shell_readline_def alloc_def shell_prompt_fields
        fprintf_def log_event_def stdout_writes_append)
qed

text \<open>
  C2, as the code has it. At the end of the input \<^verbatim>\<open>shell_readline\<close> returns NULL, the pass
  skips the tokenizer and the dispatcher, and the loop goes on: after any number of
  passes it is still running, the input is still at its end, and each pass has printed
  the prompt once more.
\<close>

theorem eof_keeps_looping:
  "stdin w = [] \<Longrightarrow> shell_prompt w = fprintf Stdout p w \<Longrightarrow>
     \<exists>w'. shell_loop_while P n 1 w = (None, w') \<and> stdin w' = [] \<and>
          stdout_writes (trace w') = stdout_writes (trace w) @ replicate n p"
proof (induction n arbitrary: w)
  case 0
  then show ?case by simp
next
  case (Suc n)
  from body_at_eof [OF Suc.prems(1), of P] obtain w1 where
    b: "shell_loop_body P w = (Returns (), w1)" and s: "stdin w1 = []"
    and e: "environ w1 = environ w" "workdir w1 = workdir w"
    and t: "stdout_writes (trace w1) = stdout_writes (trace (shell_prompt w))"
    by blast
  have p1: "shell_prompt w1 = fprintf Stdout p w1"
    using e Suc.prems(2) by (rule shell_prompt_same)
  from Suc.IH [OF s p1] obtain w' where
    l: "shell_loop_while P n 1 w1 = (None, w')" and s': "stdin w' = []"
    and t': "stdout_writes (trace w') = stdout_writes (trace w1) @ replicate n p"
    by blast
  have "stdout_writes (trace w1) = stdout_writes (trace w) @ [p]"
    using t Suc.prems(2) by (simp add: fprintf_def log_event_def stdout_writes_append)
  with t' have "stdout_writes (trace w') = stdout_writes (trace w) @ replicate (Suc n) p"
    by (simp add: replicate_app_Cons_same)
  with b l s' show ?case by simp
qed

theorem eof_keeps_looping_witness:
  "fst (shell_loop_while sample_platform 3 1 sample_world) = None \<and>
   stdout_writes (trace (snd (shell_loop_while sample_platform 3 1 sample_world)))
     = [''(null)$ '', ''(null)$ '', ''(null)$ '']"
proof -
  have 1: "stdin sample_world = []"
    by (simp add: sample_world_def)
  have 2: "shell_prompt sample_world = fprintf Stdout ''(null)$ '' sample_world"
    by (simp add: shell_prompt_def sample_world_def getenv_def getcwd_def)
  from eof_keeps_looping [OF 1 2, of sample_platform 3] show ?thesis
    by (auto simp: sample_world_def numeral_3_eq_3)
qed

text \<open>
  C2, as the claim has it, fails: started at the end of the input, \<^verbatim>\<open>shell_loop\<close> has
  printed its banner and three prompts after three passes, and has not stopped.
\<close>

theorem eof_counterexample:
  "shell_loop sample_platform 3 sample_world =
     (None,
      sample_world\<lparr>environ := [''HOME'' \<mapsto> ''/'', ''PWD'' \<mapsto> ''/''],
        trace := [Write Stdout [NL], Write Stdout ''Welcome to a tiny PS4 shell, '',
                  Write Stdout (''compiled Jan  1 2021 at 00:00:00'' @ [NL]),
                  Write Stdout (''Type 'help' for a list of commands'' @ [NL]),
                  Write Stdout [NL],
                  Write Stdout ''/$ '', Write Stdout ''/$ '', Write Stdout ''/$ '']\<rparr>)"
  by (simp add: shell_loop_def shell_loop_body_def shell_readline_def shell_prompt_def
      alloc_def printf_def fprintf_def log_event_def setenv0_def getenv_def getcwd_def
      sample_world_def sample_platform_def numeral_3_eq_3 Let_def)







end
